theory Spec2Isabelle
  imports Main "HOL-Library.Word"
begin

section \<open>cppformat: a shallow embedding of \<^verbatim>\<open>cppformat.h\<close>\<close>

text \<open>
  The header defines three classes. \<^verbatim>\<open>fstring_outputbuffer\<close> collects string
  fragments, \<^verbatim>\<open>fstring_state\<close> scans a format string for directives, and
  \<^verbatim>\<open>fstring\<close> is a handle on one shared \<^verbatim>\<open>fstring_state\<close>. Every method
  mutates the object it is called on, so each is modelled as a function from the object
  to the object after the call; a method that can throw returns the exception (or the
  value) together with the object as the exception leaves it.

  The reference count of \<^verbatim>\<open>fstring_state\<close> only governs the lifetime of the shared
  object. All handles of one chain point to the same object, which is what threading the
  one state through the calls expresses; the counter itself is not modelled.
\<close>

subsection \<open>Exceptions\<close>

text \<open>
  The four \<^verbatim>\<open>std::invalid_argument\<close> exceptions of the header are told apart by their
  message: "Format not found" (DirectiveNotFound in the specification), "Invalid format"
  (InvalidFormat), "Format mismatch" (FormatMismatch) and "Format error"
  (FormatRenderError). \<^verbatim>\<open>std::string::resize\<close> throws \<^verbatim>\<open>std::length_error\<close> and
  \<^verbatim>\<open>std::string::substr\<close> throws \<^verbatim>\<open>std::out_of_range\<close>. Dereferencing the end
  iterator in \<^verbatim>\<open>to_string\<close> is undefined behaviour and gets an outcome of its own.
\<close>

datatype error =
    FormatNotFound
  | InvalidFormat
  | FormatMismatch
  | FormatError
  | LengthError
  | OutOfRange
  | EndDereferenced

subsection \<open>The parts of \<^verbatim>\<open>std::string\<close> the header uses\<close>

text \<open>
  A \<^verbatim>\<open>std::string\<close> is a \<^typ>\<open>string\<close>. A position of type \<^verbatim>\<open>size_t\<close> is a
  \<^typ>\<open>nat option\<close>, where \<^const>\<open>None\<close> is \<^verbatim>\<open>std::string::npos\<close>: the largest
  \<^verbatim>\<open>size_t\<close>, which no string is long enough to have as an index.
\<close>

definition NUL :: char where
  "NUL = CHR 0x00"

text \<open>\<^verbatim>\<open>s.find(c, pos)\<close>: the first index at or after \<open>pos\<close> that holds \<open>c\<close>.\<close>

definition find_char :: "string \<Rightarrow> char \<Rightarrow> nat \<Rightarrow> nat option" where
  "find_char s c pos = List.find (\<lambda>i. s ! i = c) [pos ..< length s]"

text \<open>\<^verbatim>\<open>s.find_first_of(chars, pos)\<close>: the first index at or after \<open>pos\<close> that holds a
  character of \<open>chars\<close>.\<close>

definition find_first_of :: "string \<Rightarrow> string \<Rightarrow> nat \<Rightarrow> nat option" where
  "find_first_of s chars pos = List.find (\<lambda>i. s ! i \<in> set chars) [pos ..< length s]"

text \<open>\<^verbatim>\<open>s.substr(pos, n)\<close>, where \<open>n\<close> defaults to \<^verbatim>\<open>npos\<close>: throws
  \<^verbatim>\<open>std::out_of_range\<close> when \<open>pos\<close> is beyond the size of the string.\<close>

definition substr :: "string \<Rightarrow> nat \<Rightarrow> nat option \<Rightarrow> error + string" where
  "substr s pos n =
     (if length s < pos then Inl OutOfRange
      else Inr (case n of None \<Rightarrow> drop pos s | Some k \<Rightarrow> take k (drop pos s)))"

text \<open>\<^verbatim>\<open>s.resize(n)\<close> with an \<^verbatim>\<open>int\<close> argument. The argument is converted to
  \<^verbatim>\<open>size_t\<close>, which turns a negative number into one above \<^verbatim>\<open>max_size()\<close>, and for
  such a size \<^verbatim>\<open>resize\<close> throws \<^verbatim>\<open>std::length_error\<close>. Otherwise the string is cut or
  padded with \<^verbatim>\<open>'\0'\<close> to the new size. Running out of memory is not modelled.\<close>

definition resize :: "string \<Rightarrow> int \<Rightarrow> error + string" where
  "resize s n =
     (if n < 0 then Inl LengthError
      else Inr (take (nat n) s @ replicate (nat n - length s) NUL))"

text \<open>\<^verbatim>\<open>s.c_str()\<close> read as a C string: the characters before the first \<^verbatim>\<open>'\0'\<close>.\<close>

definition c_str :: "string \<Rightarrow> string" where
  "c_str s = takeWhile (\<lambda>c. c \<noteq> NUL) s"

subsection \<open>The external renderer\<close>

text \<open>
  What \<^verbatim>\<open>printf\<close> makes of one format string and one argument: the text, or an encoding
  error. The header's arguments are the parameter types of its \<^verbatim>\<open>operator%\<close> overloads;
  numbers are kept as the bits that are passed.
\<close>

datatype arg =
    CStringArg string
  | StdStringArg string
  | CharArg char
  | IntArg "32 word"
  | UIntArg "32 word"
  | FloatArg "32 word"
  | DoubleArg "64 word"
  | VoidPtrArg "64 word"

datatype rendering = Text string | EncodingError nat

type_synonym renderer = "string \<Rightarrow> arg \<Rightarrow> rendering"

text \<open>
  Modelled from the spec: the C library's \<^verbatim>\<open>vsnprintf(buf, n, fstr, ap)\<close>, which is not
  part of the repository. On success it returns the number of characters of the whole
  text and stores as many of them as fit in \<open>n - 1\<close> places, followed by \<^verbatim>\<open>'\0'\<close>; on an
  encoding error it returns a negative number. The function returns the buffer after the
  call and the returned \<^verbatim>\<open>int\<close>.
\<close>

definition vsnprintf :: "renderer \<Rightarrow> string \<Rightarrow> nat \<Rightarrow> string \<Rightarrow> arg \<Rightarrow> string \<times> int" where
  "vsnprintf out bfr n fstr a =
     (case out fstr a of
        EncodingError k \<Rightarrow> (bfr, - int (Suc k))
      | Text t \<Rightarrow>
          (if n = 0 then bfr
           else take (n - 1) t @ [NUL] @ drop (Suc (length (take (n - 1) t))) bfr,
           int (length t)))"

subsection \<open>\<^verbatim>\<open>fstring_outputbuffer\<close>\<close>

record fstring_outputbuffer =
  fragments :: "string list"
  length' :: nat

definition outputbuffer :: fstring_outputbuffer where
  "outputbuffer = \<lparr>fragments = [], length' = 0\<rparr>"

text \<open>\<^verbatim>\<open>r + 1 >= sizeof(bfr)\<close> compares an \<^verbatim>\<open>int\<close> with a \<^verbatim>\<open>size_t\<close>: the \<^verbatim>\<open>int\<close> is
  converted to \<^verbatim>\<open>size_t\<close>, so a negative one is larger than the size of any object.\<close>

definition int_ge_size :: "int \<Rightarrow> nat \<Rightarrow> bool" where
  "int_ge_size i n \<longleftrightarrow> i < 0 \<or> n \<le> nat i"

text \<open>
  \<^verbatim>\<open>append_fmt\<close>. \<open>sizeof_bfr\<close> is \<^verbatim>\<open>sizeof(bfr)\<close>, the size of a \<^verbatim>\<open>std::string\<close>
  object, which the implementation of the standard library fixes (8, 24 or 32 bytes are
  common). The second call of \<^verbatim>\<open>vsnprintf\<close> is reached only when the first \<^verbatim>\<open>resize\<close>
  did not throw, so \<open>r + 1\<close> is not negative there.
\<close>

definition append_fmt ::
  "nat \<Rightarrow> renderer \<Rightarrow> string \<Rightarrow> arg \<Rightarrow> fstring_outputbuffer \<Rightarrow> (error + unit) \<times> fstring_outputbuffer"
where
  "append_fmt sizeof_bfr out fstr a b =
     (let bfr = replicate 16 NUL;
          (bfr, r) = vsnprintf out bfr (length bfr) fstr a;
          retried =
            (if int_ge_size (r + 1) sizeof_bfr
             then (case resize bfr (r + 1) of
                     Inl e \<Rightarrow> Inl e
                   | Inr bfr \<Rightarrow> Inr (vsnprintf out bfr (nat (r + 1)) fstr a))
             else Inr (bfr, r))
      in case retried of
           Inl e \<Rightarrow> (Inl e, b)
         | Inr (bfr, r) \<Rightarrow>
             (case resize bfr r of
                Inl e \<Rightarrow> (Inl e, b)
              | Inr bfr \<Rightarrow>
                  if r < 0 then (Inl FormatError, b)
                  else (Inr (),
                        b\<lparr>fragments := fragments b @ [bfr], length' := length' b + nat r\<rparr>)))"

text \<open>\<^verbatim>\<open>append\<close>.\<close>

definition append_text :: "string \<Rightarrow> fstring_outputbuffer \<Rightarrow> fstring_outputbuffer" where
  "append_text t b = b\<lparr>fragments := fragments b @ [t], length' := length' b + length t\<rparr>"

text \<open>\<^verbatim>\<open>fstring_outputbuffer::str\<close>.\<close>

definition buffer_str :: "fstring_outputbuffer \<Rightarrow> string" where
  "buffer_str b = concat (fragments b)"

subsection \<open>\<^verbatim>\<open>fstring_state\<close>\<close>

record fstring_state =
  fstart :: "nat option"
  fend :: "nat option"
  format :: string
  result :: fstring_outputbuffer

text \<open>The constructor.\<close>

definition fstring_state :: "string \<Rightarrow> fstring_state" where
  "fstring_state fmt = \<lparr>fstart = Some 0, fend = Some 0, format = fmt, result = outputbuffer\<rparr>"

text \<open>
  One turn of the loop of \<^verbatim>\<open>next_fmt\<close>. It throws, or it has consumed a \<^verbatim>\<open>%%\<close> and the
  loop goes on, or it leaves the loop and \<^verbatim>\<open>next_fmt\<close> returns the directive. A search
  that starts at \<^verbatim>\<open>npos\<close> finds nothing.
\<close>

datatype scan = Escaped | Resolved string

definition next_fmt_step :: "string \<Rightarrow> fstring_state \<Rightarrow> (error + scan) \<times> fstring_state" where
  "next_fmt_step chars s =
     (case fend s of
        None \<Rightarrow> (Inl FormatNotFound, s\<lparr>fstart := None\<rparr>)
      | Some e \<Rightarrow>
         (case find_char (format s) (CHR ''%'') e of
            None \<Rightarrow> (Inl FormatNotFound, s\<lparr>fstart := None\<rparr>)
          | Some i \<Rightarrow>
              let s1 = s\<lparr>fstart := Some i\<rparr> in
              if i + 1 = length (format s) then (Inl FormatNotFound, s1)
              else
               (case substr (format s) e (Some (i - e)) of
                  Inl err \<Rightarrow> (Inl err, s1)
                | Inr lit \<Rightarrow>
                   let s2 = s1\<lparr>result := append_text lit (result s1)\<rparr> in
                   (case find_first_of (format s) chars (i + 1) of
                      None \<Rightarrow> (Inl InvalidFormat, s2\<lparr>fend := None\<rparr>)
                    | Some j \<Rightarrow>
                       let s3 = s2\<lparr>fend := Some (j + 1)\<rparr> in
                       if format s ! j = CHR ''%''
                       then (Inr Escaped, s3\<lparr>result := append_text ''%'' (result s3)\<rparr>)
                       else if find_char chars (format s ! j) 0 = None
                       then (Inl FormatMismatch, s3)
                       else
                        (case substr (format s) i (Some (j + 1 - i)) of
                           Inl err \<Rightarrow> (Inl err, s3)
                         | Inr d \<Rightarrow> (Inr (Resolved d), s3))))))"

text \<open>
  \<^verbatim>\<open>next_fmt\<close>: the loop. It ends because every turn that goes on has moved
  \<^verbatim>\<open>fend\<close> forward inside the format string.
\<close>

function next_fmt :: "string \<Rightarrow> fstring_state \<Rightarrow> (error + string) \<times> fstring_state" where
  "next_fmt chars s =
     (case next_fmt_step chars s of
        (Inl err, s') \<Rightarrow> (Inl err, s')
      | (Inr Escaped, s') \<Rightarrow> next_fmt chars s'
      | (Inr (Resolved d), s') \<Rightarrow> (Inr d, s'))"
  by pat_completeness auto
termination
proof (relation "measure (\<lambda>(chars, s). length (format s) - (case fend s of None \<Rightarrow> 0 | Some e \<Rightarrow> e))")
  show "wf (measure (\<lambda>(chars, s). length (format s) - (case fend s of None \<Rightarrow> 0 | Some e \<Rightarrow> e)))"
    by simp
next
  fix chars :: string and s x s' sc
  assume "(x, s') = next_fmt_step chars s" and "x = Inr sc" and "sc = Escaped"
  then have step: "next_fmt_step chars s = (Inr Escaped, s')"
    by simp
  have percent: "pos \<le> i \<and> i < length t" if "find_char t c pos = Some i" for t c pos i
    using that by (auto simp: find_char_def find_Some_iff)
  have allowed: "pos \<le> i \<and> i < length t" if "find_first_of t cs pos = Some i" for t cs pos i
    using that by (auto simp: find_first_of_def find_Some_iff)
  from step have "\<exists>e j. fend s = Some e \<and> fend s' = Some (j + 1) \<and> e < j + 1
      \<and> j < length (format s) \<and> format s' = format s"
    by (auto simp: next_fmt_step_def Let_def
          split: option.splits if_splits sum.splits dest!: percent allowed)
  then show "((chars, s'), (chars, s))
          \<in> measure (\<lambda>(chars, s). length (format s) - (case fend s of None \<Rightarrow> 0 | Some e \<Rightarrow> e))"
    by auto
qed

declare next_fmt.simps [simp del]

text \<open>\<^verbatim>\<open>reset\<close>. \<^verbatim>\<open>format.substr(fend)\<close> throws when \<^verbatim>\<open>fend\<close> is \<^verbatim>\<open>npos\<close>.\<close>

definition reset :: "fstring_state \<Rightarrow> (error + unit) \<times> fstring_state" where
  "reset s =
     (case fend s of
        None \<Rightarrow> (Inl OutOfRange, s)
      | Some e \<Rightarrow>
         (case substr (format s) e None of
            Inl err \<Rightarrow> (Inl err, s)
          | Inr rest \<Rightarrow>
              (Inr (), s\<lparr>result := append_text rest (result s), fstart := Some 0, fend := Some 0\<rparr>)))"

text \<open>\<^verbatim>\<open>fstring_state::str\<close>.\<close>

definition str :: "fstring_state \<Rightarrow> (error + string) \<times> fstring_state" where
  "str s =
     (case fend s of
        None \<Rightarrow> (Inl OutOfRange, s)
      | Some e \<Rightarrow>
         (case substr (format s) e None of
            Inl err \<Rightarrow> (Inl err, s)
          | Inr rest \<Rightarrow>
              let s' = s\<lparr>result := append_text rest (result s)\<rparr>
              in (Inr (buffer_str (result s')), s')))"

subsection \<open>\<^verbatim>\<open>fstring\<close> and its operators\<close>

text \<open>
  A handle is the state it points to: \<^verbatim>\<open>fstring(fmt)\<close> is \<^const>\<open>fstring_state\<close>,
  \<^verbatim>\<open>fstring::reset\<close>, \<^verbatim>\<open>fstring::next_fmt\<close> and \<^verbatim>\<open>fstring::str\<close> are \<^const>\<open>reset\<close>,
  \<^const>\<open>next_fmt\<close> and \<^const>\<open>str\<close>, and the handle a method returns is a copy that
  points to the same state.
\<close>

definition printfmt ::
  "nat \<Rightarrow> renderer \<Rightarrow> string \<Rightarrow> arg \<Rightarrow> fstring_state \<Rightarrow> (error + unit) \<times> fstring_state"
where
  "printfmt sizeof_bfr out fmtChars rhs s =
     (case next_fmt fmtChars s of
        (Inl err, s') \<Rightarrow> (Inl err, s')
      | (Inr fstr, s') \<Rightarrow>
          (case append_fmt sizeof_bfr out (c_str fstr) rhs (result s') of
             (Inl err, b) \<Rightarrow> (Inl err, s'\<lparr>result := b\<rparr>)
           | (Inr u, b) \<Rightarrow> (Inr (), s'\<lparr>result := b\<rparr>)))"

text \<open>\<^verbatim>\<open>fstring::append\<close>.\<close>

definition fstring_append :: "string \<Rightarrow> fstring_state \<Rightarrow> fstring_state" where
  "fstring_append t s = s\<lparr>result := append_text t (result s)\<rparr>"

text \<open>The overloads of \<^verbatim>\<open>operator%\<close>: each names the conversion characters of its type.
  The one for \<^verbatim>\<open>std::string\<close> passes \<^verbatim>\<open>rhs.c_str()\<close> on.\<close>

fun operator_percent ::
  "nat \<Rightarrow> renderer \<Rightarrow> fstring_state \<Rightarrow> arg \<Rightarrow> (error + unit) \<times> fstring_state"
where
  "operator_percent sz out lhs (CStringArg rhs) = printfmt sz out ''s'' (CStringArg rhs) lhs"
| "operator_percent sz out lhs (StdStringArg rhs) = printfmt sz out ''s'' (CStringArg (c_str rhs)) lhs"
| "operator_percent sz out lhs (CharArg rhs) = printfmt sz out ''c'' (CharArg rhs) lhs"
| "operator_percent sz out lhs (IntArg rhs) = printfmt sz out ''di'' (IntArg rhs) lhs"
| "operator_percent sz out lhs (UIntArg rhs) = printfmt sz out ''uxXo'' (UIntArg rhs) lhs"
| "operator_percent sz out lhs (FloatArg rhs) = printfmt sz out ''fFeEgG'' (FloatArg rhs) lhs"
| "operator_percent sz out lhs (DoubleArg rhs) = printfmt sz out ''fFeEgG'' (DoubleArg rhs) lhs"
| "operator_percent sz out lhs (VoidPtrArg rhs) = printfmt sz out ''p'' (VoidPtrArg rhs) lhs"

text \<open>\<^verbatim>\<open>operator%=\<close> calls \<^verbatim>\<open>operator%\<close> and returns its left operand, which points to
  the state the call has changed.\<close>

definition operator_percent_assign ::
  "nat \<Rightarrow> renderer \<Rightarrow> fstring_state \<Rightarrow> arg \<Rightarrow> (error + unit) \<times> fstring_state"
where
  "operator_percent_assign sz out lhs rhs = operator_percent sz out lhs rhs"

text \<open>
  \<^verbatim>\<open>to_string\<close> over the range of a list. The loop takes the elements after the first.
  With an empty range the first \<^verbatim>\<open>*(i++)\<close> dereferences \<^verbatim>\<open>end\<close>.
\<close>

fun to_string_loop ::
  "nat \<Rightarrow> renderer \<Rightarrow> fstring_state \<Rightarrow> arg list \<Rightarrow> string \<Rightarrow> (error + unit) \<times> fstring_state"
where
  "to_string_loop sz out fmt [] sep = (Inr (), fmt)"
| "to_string_loop sz out fmt (x # xs) sep =
     (case reset fmt of
        (Inl err, fmt1) \<Rightarrow> (Inl err, fmt1)
      | (Inr u, fmt1) \<Rightarrow>
          (case operator_percent_assign sz out (fstring_append sep fmt1) x of
             (Inl err, fmt2) \<Rightarrow> (Inl err, fmt2)
           | (Inr u, fmt2) \<Rightarrow> to_string_loop sz out fmt2 xs sep))"

definition to_string :: "nat \<Rightarrow> renderer \<Rightarrow> string \<Rightarrow> arg list \<Rightarrow> string \<Rightarrow> error + string" where
  "to_string sz out fstr xs sep =
     (case xs of
        [] \<Rightarrow> Inl EndDereferenced
      | x # rest \<Rightarrow>
          (case operator_percent_assign sz out (fstring_state fstr) x of
             (Inl err, fmt) \<Rightarrow> Inl err
           | (Inr u, fmt) \<Rightarrow>
               (case to_string_loop sz out fmt rest sep of
                  (Inl err, fmt') \<Rightarrow> Inl err
                | (Inr u, fmt') \<Rightarrow> fst (str fmt'))))"

subsection \<open>Notions the properties are stated with\<close>

text \<open>The value of \<^verbatim>\<open>format.find('%', fend)\<close> in a state, as the first statement of the
  loop of \<^verbatim>\<open>next_fmt\<close> computes it.\<close>

definition find_percent :: "fstring_state \<Rightarrow> nat option" where
  "find_percent s =
     (case fend s of None \<Rightarrow> None | Some e \<Rightarrow> find_char (format s) (CHR ''%'') e)"

text \<open>The conversion characters each overload of \<^verbatim>\<open>operator%\<close> hands to
  \<^verbatim>\<open>printfmt\<close>.\<close>

fun fmtChars :: "arg \<Rightarrow> string" where
  "fmtChars (CStringArg rhs) = ''s''"
| "fmtChars (StdStringArg rhs) = ''s''"
| "fmtChars (CharArg rhs) = ''c''"
| "fmtChars (IntArg rhs) = ''di''"
| "fmtChars (UIntArg rhs) = ''uxXo''"
| "fmtChars (FloatArg rhs) = ''fFeEgG''"
| "fmtChars (DoubleArg rhs) = ''fFeEgG''"
| "fmtChars (VoidPtrArg rhs) = ''p''"

text \<open>A buffer after some more fragments have been appended to it.\<close>

definition extends :: "fstring_outputbuffer \<Rightarrow> string list \<Rightarrow> fstring_outputbuffer" where
  "extends b fs = b\<lparr>fragments := fragments b @ fs, length' := length' b + length (concat fs)\<rparr>"

text \<open>
  The fragment \<^verbatim>\<open>append_fmt\<close> stores for a text \<open>t\<close> of the renderer: when
  \<open>t\<close> has 16 characters or more and \<open>length t + 1\<close> is still below \<^verbatim>\<open>sizeof(bfr)\<close>,
  the first 15 characters, the terminating \<^verbatim>\<open>'\0'\<close> and the padding of the last
  \<^verbatim>\<open>resize\<close>; the text itself otherwise.
\<close>

definition stored :: "nat \<Rightarrow> string \<Rightarrow> string" where
  "stored sizeof_bfr t =
     (if 16 \<le> length t \<and> length t + 1 < sizeof_bfr
      then take 15 t @ NUL # replicate (length t - 16) NUL
      else t)"

text \<open>One value formatted on its own: \<^verbatim>\<open>(fstring(fstr) % x).str()\<close>.\<close>

definition format_one :: "nat \<Rightarrow> renderer \<Rightarrow> string \<Rightarrow> arg \<Rightarrow> error + string" where
  "format_one sz out fstr x =
     (case operator_percent sz out (fstring_state fstr) x of
        (Inl err, fmt) \<Rightarrow> Inl err
      | (Inr u, fmt) \<Rightarrow> fst (str fmt))"

text \<open>
  What the specification compares \<^verbatim>\<open>to_string\<close> with: every element formatted
  independently with the same format string, and the texts concatenated with the
  separator between each pair. The first element that fails gives the exception.
\<close>

fun join :: "string \<Rightarrow> string list \<Rightarrow> string" where
  "join sep [] = []"
| "join sep [t] = t"
| "join sep (t # ts) = t @ sep @ join sep ts"

fun collect :: "(error + string) list \<Rightarrow> error + string list" where
  "collect [] = Inr []"
| "collect (Inl err # rs) = Inl err"
| "collect (Inr t # rs) = (case collect rs of Inl err \<Rightarrow> Inl err | Inr ts \<Rightarrow> Inr (t # ts))"

definition formatted_independently ::
  "nat \<Rightarrow> renderer \<Rightarrow> string \<Rightarrow> arg list \<Rightarrow> string \<Rightarrow> error + string"
where
  "formatted_independently sz out fstr xs sep =
     (case collect (map (format_one sz out fstr) xs) of
        Inl err \<Rightarrow> Inl err
      | Inr ts \<Rightarrow> Inr (join sep ts))"

section \<open>Lemmas\<close>

subsection \<open>The two searches\<close>

lemma find_char_Some:
  "find_char s c pos = Some i \<Longrightarrow> pos \<le> i \<and> i < length s \<and> s ! i = c"
  by (auto simp: find_char_def find_Some_iff)

lemma find_first_of_Some:
  "find_first_of s chars pos = Some i \<Longrightarrow> pos \<le> i \<and> i < length s \<and> s ! i \<in> set chars"
  by (auto simp: find_first_of_def find_Some_iff)

lemma find_char_None: "find_char s c 0 = None \<longleftrightarrow> c \<notin> set s"
  by (auto simp: find_char_def find_None_iff in_set_conv_nth)

subsection \<open>The output buffer\<close>

lemma extends_Nil [simp]: "extends b [] = b"
  by (simp add: extends_def)

lemma extends_extends [simp]: "extends (extends b fs) gs = extends b (fs @ gs)"
  by (simp add: extends_def)

lemma append_text_extends: "append_text t b = extends b [t]"
  by (simp add: append_text_def extends_def)

lemma buffer_str_extends [simp]: "buffer_str (extends b fs) = buffer_str b @ concat fs"
  by (simp add: buffer_str_def extends_def)

text \<open>What \<^const>\<open>append_fmt\<close> does, by the outcome of the renderer.\<close>

lemma append_fmt_EncodingError:
  "out fstr a = EncodingError k \<Longrightarrow> append_fmt sz out fstr a b = (Inl LengthError, b)"
  by (simp add: append_fmt_def vsnprintf_def resize_def int_ge_size_def Let_def)

lemma append_fmt_Text:
  assumes "out fstr a = Text t"
  shows "append_fmt sz out fstr a b = (Inr (), extends b [stored sz t])"
proof (cases "sz \<le> length t + 1")
  case True
  then have "int_ge_size (int (length t) + 1) sz"
    by (simp add: int_ge_size_def)
  with assms True show ?thesis
    by (simp add: append_fmt_def vsnprintf_def resize_def Let_def extends_def stored_def
        nat_add_distrib)
next
  case False
  then have ng: "\<not> int_ge_size (int (length t) + 1) sz"
    by (simp add: int_ge_size_def)
  show ?thesis
  proof (cases "16 \<le> length t")
    case True
    with assms False ng show ?thesis
      by (simp add: append_fmt_def vsnprintf_def resize_def Let_def extends_def stored_def)
  next
    case False
    with assms ng \<open>\<not> sz \<le> length t + 1\<close> show ?thesis
      by (simp add: append_fmt_def vsnprintf_def resize_def Let_def extends_def stored_def)
  qed
qed

text \<open>Were \<^verbatim>\<open>sizeof(bfr)\<close> at most 17, every text would be stored whole.\<close>

lemma append_fmt_Text_whole:
  assumes "sz \<le> 17" and "out fstr a = Text t"
  shows "append_fmt sz out fstr a b = (Inr (), extends b [t])"
proof -
  from assms(1) have "stored sz t = t"
    by (auto simp: stored_def)
  with assms(2) show ?thesis
    by (simp add: append_fmt_Text)
qed

lemma append_fmt_never_FormatNotFound:
  "fst (append_fmt sz out fstr a b) \<noteq> Inl FormatNotFound"
  by (cases "out fstr a") (simp_all add: append_fmt_Text append_fmt_EncodingError)

lemma append_fmt_frame:
  "\<exists>fs. \<forall>b. append_fmt sz out fstr a b =
            (fst (append_fmt sz out fstr a outputbuffer), extends b fs)"
proof (cases "out fstr a")
  case (Text t)
  then have "\<forall>b. append_fmt sz out fstr a b =
      (fst (append_fmt sz out fstr a outputbuffer), extends b [stored sz t])"
    by (simp add: append_fmt_Text)
  then show ?thesis ..
next
  case (EncodingError k)
  then have "\<forall>b. append_fmt sz out fstr a b =
      (fst (append_fmt sz out fstr a outputbuffer), extends b [])"
    by (simp add: append_fmt_EncodingError)
  then show ?thesis ..
qed

subsection \<open>One turn of the loop\<close>

lemma next_fmt_step_not_FormatMismatch:
  "fst (next_fmt_step chars s) \<noteq> Inl FormatMismatch"
  by (auto simp: next_fmt_step_def Let_def find_char_None substr_def
           split: option.splits if_splits sum.splits
           dest!: find_first_of_Some)

lemma next_fmt_step_fend:
  assumes "next_fmt_step chars s = (Inr sc, s')"
  shows "\<exists>e e'. fend s = Some e \<and> fend s' = Some e' \<and> e < e'
           \<and> e' \<le> length (format s) \<and> format s' = format s"
  using assms
  by (auto simp: next_fmt_step_def Let_def substr_def
           split: option.splits if_splits sum.splits
           dest!: find_char_Some find_first_of_Some)

lemma next_fmt_step_FormatNotFound:
  "fst (next_fmt_step chars s) = Inl FormatNotFound \<longleftrightarrow>
     find_percent s = None \<or> (\<exists>i. find_percent s = Some i \<and> i + 1 = length (format s))"
  by (auto simp: next_fmt_step_def find_percent_def Let_def substr_def
           split: option.splits if_splits sum.splits
           dest: find_char_Some)

lemma next_fmt_step_FormatNotFound_result:
  "fst (next_fmt_step chars s) = Inl FormatNotFound \<Longrightarrow>
     result (snd (next_fmt_step chars s)) = result s
     \<and> fend (snd (next_fmt_step chars s)) = fend s"
  by (auto simp: next_fmt_step_def Let_def substr_def
           split: option.splits if_splits sum.splits
           dest: find_char_Some)

lemma next_fmt_step_no_escape:
  "CHR ''%'' \<notin> set chars \<Longrightarrow> next_fmt_step chars s \<noteq> (Inr Escaped, s')"
  by (auto simp: next_fmt_step_def Let_def substr_def
           split: option.splits if_splits sum.splits
           dest: find_first_of_Some)

text \<open>The buffer does not influence a turn: it only receives fragments.\<close>

lemma next_fmt_step_frame:
  "\<exists>fs. \<forall>b. next_fmt_step chars (s\<lparr>result := b\<rparr>) =
            (fst (next_fmt_step chars s), snd (next_fmt_step chars s)\<lparr>result := extends b fs\<rparr>)"
proof -
  let ?fs = "drop (length (fragments (result s)))
               (fragments (result (snd (next_fmt_step chars s))))"
  have "\<forall>b. next_fmt_step chars (s\<lparr>result := b\<rparr>) =
            (fst (next_fmt_step chars s), snd (next_fmt_step chars s)\<lparr>result := extends b ?fs\<rparr>)"
    by (simp add: next_fmt_step_def Let_def append_text_extends substr_def
          split: option.splits sum.splits) (simp add: extends_def)
  then show ?thesis ..
qed

subsection \<open>The loop\<close>

lemma next_fmt_fend:
  "next_fmt chars s = (Inr d, s') \<Longrightarrow>
     \<exists>e e'. fend s = Some e \<and> fend s' = Some e' \<and> e < e'
       \<and> e' \<le> length (format s) \<and> format s' = format s"
proof (induction chars s rule: next_fmt.induct)
  case (1 chars s)
  obtain x s1 where st: "next_fmt_step chars s = (x, s1)"
    by (cases "next_fmt_step chars s")
  show ?case
  proof (cases x)
    case (Inl err)
    with st "1.prems" show ?thesis
      by (simp add: next_fmt.simps [of chars s])
  next
    case (Inr sc)
    from st Inr next_fmt_step_fend [of chars s sc s1]
    obtain e e1 where e: "fend s = Some e" "fend s1 = Some e1" "e < e1"
        "e1 \<le> length (format s)" "format s1 = format s"
      by auto
    show ?thesis
    proof (cases sc)
      case Escaped
      with st Inr "1.prems" have "next_fmt chars s1 = (Inr d, s')"
        by (simp add: next_fmt.simps [of chars s])
      from "1.IH" [OF st [symmetric] Inr Escaped this] e show ?thesis
        by auto
    next
      case (Resolved d')
      with st Inr "1.prems" have "s' = s1"
        by (simp add: next_fmt.simps [of chars s])
      with e show ?thesis by auto
    qed
  qed
qed

text \<open>Without \<^verbatim>\<open>%\<close> among the allowed characters the loop takes one turn.\<close>

lemma next_fmt_one_turn:
  assumes "CHR ''%'' \<notin> set chars"
  shows "next_fmt chars s =
           (case next_fmt_step chars s of
              (Inl err, s') \<Rightarrow> (Inl err, s')
            | (Inr Escaped, s') \<Rightarrow> (Inl FormatMismatch, s')
            | (Inr (Resolved d), s') \<Rightarrow> (Inr d, s'))"
  using next_fmt_step_no_escape [OF assms, of s]
  by (subst next_fmt.simps) (auto split: prod.splits sum.splits scan.splits)

lemma next_fmt_frame:
  "\<exists>fs. \<forall>b. next_fmt chars (s\<lparr>result := b\<rparr>) =
            (fst (next_fmt chars s), snd (next_fmt chars s)\<lparr>result := extends b fs\<rparr>)"
proof (induction chars s rule: next_fmt.induct)
  case (1 chars s)
  obtain x s1 where st: "next_fmt_step chars s = (x, s1)"
    by (cases "next_fmt_step chars s")
  from next_fmt_step_frame [of chars s] st
  obtain fs1 where fr:
    "\<And>b. next_fmt_step chars (s\<lparr>result := b\<rparr>) = (x, s1\<lparr>result := extends b fs1\<rparr>)"
    by auto
  show ?case
  proof (cases x)
    case (Inl err)
    with st fr have "\<forall>b. next_fmt chars (s\<lparr>result := b\<rparr>) =
            (fst (next_fmt chars s), snd (next_fmt chars s)\<lparr>result := extends b fs1\<rparr>)"
      by (simp add: next_fmt.simps [of chars s] next_fmt.simps [of chars "s\<lparr>result := _\<rparr>"])
    then show ?thesis ..
  next
    case (Inr sc)
    show ?thesis
    proof (cases sc)
      case Escaped
      from "1.IH" [OF st [symmetric] Inr Escaped]
      obtain fs2 where ih: "\<And>b. next_fmt chars (s1\<lparr>result := b\<rparr>) =
            (fst (next_fmt chars s1), snd (next_fmt chars s1)\<lparr>result := extends b fs2\<rparr>)"
        by auto
      from st Inr Escaped have eq: "next_fmt chars s = next_fmt chars s1"
        by (simp add: next_fmt.simps [of chars s])
      have "\<forall>b. next_fmt chars (s\<lparr>result := b\<rparr>) =
            (fst (next_fmt chars s), snd (next_fmt chars s)\<lparr>result := extends b (fs1 @ fs2)\<rparr>)"
      proof
        fix b
        have "next_fmt chars (s\<lparr>result := b\<rparr>) = next_fmt chars (s1\<lparr>result := extends b fs1\<rparr>)"
          using fr [of b] Inr Escaped
          by (simp add: next_fmt.simps [of chars "s\<lparr>result := b\<rparr>"])
        also have "\<dots> = (fst (next_fmt chars s1),
                          snd (next_fmt chars s1)\<lparr>result := extends b (fs1 @ fs2)\<rparr>)"
          using ih [of "extends b fs1"] by simp
        finally show "next_fmt chars (s\<lparr>result := b\<rparr>) =
            (fst (next_fmt chars s), snd (next_fmt chars s)\<lparr>result := extends b (fs1 @ fs2)\<rparr>)"
          by (simp add: eq)
      qed
      then show ?thesis ..
    next
      case (Resolved d)
      with st Inr fr have "\<forall>b. next_fmt chars (s\<lparr>result := b\<rparr>) =
            (fst (next_fmt chars s), snd (next_fmt chars s)\<lparr>result := extends b fs1\<rparr>)"
        by (simp add: next_fmt.simps [of chars s] next_fmt.simps [of chars "s\<lparr>result := _\<rparr>"])
      then show ?thesis ..
    qed
  qed
qed

subsection \<open>\<^const>\<open>printfmt\<close> and \<^const>\<open>operator_percent\<close>\<close>

lemma printfmt_FormatNotFound:
  "fst (printfmt sz out chars a s) = Inl FormatNotFound
     \<longleftrightarrow> fst (next_fmt chars s) = Inl FormatNotFound"
proof -
  obtain r s' where n: "next_fmt chars s = (r, s')"
    by (cases "next_fmt chars s")
  show ?thesis
  proof (cases r)
    case (Inl err)
    with n show ?thesis by (simp add: printfmt_def)
  next
    case (Inr fstr)
    obtain u b where a: "append_fmt sz out (c_str fstr) a (result s') = (u, b)"
      by (cases "append_fmt sz out (c_str fstr) a (result s')")
    with append_fmt_never_FormatNotFound [of sz out "c_str fstr" a "result s'"]
    have "u \<noteq> Inl FormatNotFound" by auto
    with n Inr a show ?thesis
      by (cases u) (auto simp: printfmt_def)
  qed
qed

lemma printfmt_FormatNotFound_state:
  assumes "fst (printfmt sz out chars a s) = Inl FormatNotFound"
  shows "snd (printfmt sz out chars a s) = snd (next_fmt chars s)"
proof -
  obtain r s' where n: "next_fmt chars s = (r, s')"
    by (cases "next_fmt chars s")
  from assms printfmt_FormatNotFound [of sz out chars a s] n have "r = Inl FormatNotFound"
    by simp
  with n show ?thesis by (simp add: printfmt_def)
qed

lemma printfmt_cursor:
  assumes "printfmt sz out chars a s = (Inr u, s')"
  shows "format s' = format s \<and> (\<exists>e'. fend s' = Some e' \<and> e' \<le> length (format s))"
proof -
  obtain r s1 where n: "next_fmt chars s = (r, s1)"
    by (cases "next_fmt chars s")
  with assms obtain d where d: "r = Inr d"
    by (cases r) (auto simp: printfmt_def)
  from assms n d have "format s' = format s1 \<and> fend s' = fend s1"
    by (auto simp: printfmt_def split: prod.splits sum.splits)
  with next_fmt_fend [of chars s d s1] n d show ?thesis by auto
qed

lemma printfmt_frame:
  "\<exists>fs. \<forall>b. printfmt sz out chars a (s\<lparr>result := b\<rparr>) =
            (fst (printfmt sz out chars a s),
             snd (printfmt sz out chars a s)\<lparr>result := extends b fs\<rparr>)"
proof -
  from next_fmt_frame [of chars s]
  obtain fs1 where n: "\<And>b. next_fmt chars (s\<lparr>result := b\<rparr>) =
            (fst (next_fmt chars s), snd (next_fmt chars s)\<lparr>result := extends b fs1\<rparr>)"
    by auto
  obtain r s1 where st: "next_fmt chars s = (r, s1)"
    by (cases "next_fmt chars s")
  show ?thesis
  proof (cases r)
    case (Inl err)
    with n st have "\<forall>b. printfmt sz out chars a (s\<lparr>result := b\<rparr>) =
            (fst (printfmt sz out chars a s),
             snd (printfmt sz out chars a s)\<lparr>result := extends b fs1\<rparr>)"
      by (simp add: printfmt_def)
    then show ?thesis ..
  next
    case (Inr fstr)
    from append_fmt_frame [of sz out "c_str fstr" a]
    obtain fs2 where ap: "\<And>b. append_fmt sz out (c_str fstr) a b =
        (fst (append_fmt sz out (c_str fstr) a outputbuffer), extends b fs2)"
      by auto
    have "\<forall>b. printfmt sz out chars a (s\<lparr>result := b\<rparr>) =
            (fst (printfmt sz out chars a s),
             snd (printfmt sz out chars a s)\<lparr>result := extends b (fs1 @ fs2)\<rparr>)"
      using n st Inr ap [of "extends _ fs1"] ap [of "result s1"]
      by (cases "fst (append_fmt sz out (c_str fstr) a outputbuffer)")
        (simp_all add: printfmt_def)
    then show ?thesis ..
  qed
qed

lemma operator_percent_printfmt:
  "\<exists>a'. operator_percent sz out s a = printfmt sz out (fmtChars a) a' s"
  by (cases a) auto

lemma fmtChars_no_percent: "CHR ''%'' \<notin> set (fmtChars a)"
  by (cases a) auto

lemma operator_percent_cursor:
  assumes "operator_percent sz out s a = (Inr u, s')"
  shows "format s' = format s \<and> (\<exists>e'. fend s' = Some e' \<and> e' \<le> length (format s))"
  using assms by (cases a) (auto dest: printfmt_cursor)

lemma operator_percent_frame:
  "\<exists>fs. \<forall>b. operator_percent sz out (s\<lparr>result := b\<rparr>) a =
            (fst (operator_percent sz out s a),
             snd (operator_percent sz out s a)\<lparr>result := extends b fs\<rparr>)"
  by (cases a) (simp_all add: printfmt_frame)

subsection \<open>\<^const>\<open>str\<close> and \<^const>\<open>reset\<close>\<close>

lemma str_eq:
  "fend s = Some e \<Longrightarrow> e \<le> length (format s) \<Longrightarrow>
     str s = (Inr (buffer_str (result s) @ drop e (format s)),
              s\<lparr>result := append_text (drop e (format s)) (result s)\<rparr>)"
  by (simp add: str_def substr_def Let_def append_text_extends)

lemma str_Inr:
  "fst (str s) = Inr acc \<Longrightarrow>
     \<exists>e. fend s = Some e \<and> e \<le> length (format s)
       \<and> acc = buffer_str (result s) @ drop e (format s)"
  by (auto simp: str_def substr_def Let_def append_text_extends
           split: option.splits if_splits)

lemma reset_eq:
  "fend s = Some e \<Longrightarrow> e \<le> length (format s) \<Longrightarrow>
     reset s = (Inr (), s\<lparr>result := append_text (drop e (format s)) (result s),
                          fstart := Some 0, fend := Some 0\<rparr>)"
  by (simp add: reset_def substr_def)

lemma str_fstring_state: "fst (str (fstring_state fmt)) = Inr fmt"
  by (simp add: str_def substr_def fstring_state_def outputbuffer_def buffer_str_def
        append_text_def)

lemma reset_fend:
  "reset s = (Inr u, s') \<Longrightarrow> fend s' = Some 0 \<and> format s' = format s"
  by (auto simp: reset_def split: option.splits sum.splits)

text \<open>After "Invalid format" the end cursor is \<^verbatim>\<open>npos\<close>, and \<^const>\<open>str\<close> on such a
  state throws.\<close>

lemma str_npos: "fend s = None \<Longrightarrow> fst (str s) = Inl OutOfRange"
  by (simp add: str_def)

subsection \<open>\<^const>\<open>to_string\<close>\<close>

text \<open>
  One round of the loop of \<^verbatim>\<open>to_string\<close>, from a state whose \<^const>\<open>str\<close> would be
  \<open>acc\<close>: after \<^const>\<open>reset\<close> and the separator the scanner is in its initial state
  but for the buffer, so the next element is bound as if on its own.
\<close>

lemma rebind:
  assumes fmt: "format s = fstr" and acc: "fst (str s) = Inr acc"
  shows "\<exists>s1 r s2. reset s = (Inr (), s1)
           \<and> operator_percent_assign sz out (fstring_append sep s1) x = (r, s2)
           \<and> (case format_one sz out fstr x of
                 Inl err \<Rightarrow> r = Inl err
               | Inr t \<Rightarrow> r = Inr () \<and> format s2 = fstr
                   \<and> fst (str s2) = Inr (acc @ sep @ t))"
proof -
  from str_Inr [OF acc] fmt obtain e where
    e: "fend s = Some e" "e \<le> length (format s)" "acc = buffer_str (result s) @ drop e fstr"
    by auto
  let ?init = "fstring_state fstr"
  let ?b = "extends (result s) [drop e fstr, sep]"
  let ?s1 = "s\<lparr>result := append_text (drop e (format s)) (result s),
               fstart := Some 0, fend := Some 0\<rparr>"
  have r: "reset s = (Inr (), ?s1)"
    by (rule reset_eq [OF e(1,2)])
  have s1: "fstring_append sep ?s1 = ?init\<lparr>result := ?b\<rparr>"
    using fmt by (cases s) (simp add: fstring_append_def fstring_state_def append_text_extends)
  from operator_percent_frame [of sz out ?init x]
  obtain fs where fr: "\<And>b. operator_percent sz out (?init\<lparr>result := b\<rparr>) x =
      (fst (operator_percent sz out ?init x),
       snd (operator_percent sz out ?init x)\<lparr>result := extends b fs\<rparr>)"
    by auto
  obtain r0 s0 where op: "operator_percent sz out ?init x = (r0, s0)"
    by (cases "operator_percent sz out ?init x")
  have init: "?init\<lparr>result := outputbuffer\<rparr> = ?init"
    by (simp add: fstring_state_def)
  from fr [of outputbuffer] op have res0: "result s0 = extends outputbuffer fs"
    unfolding init by (cases s0) (auto simp: prod_eq_iff)
  have op2: "operator_percent_assign sz out (fstring_append sep ?s1) x =
               (r0, s0\<lparr>result := extends ?b fs\<rparr>)"
    unfolding s1 operator_percent_assign_def using fr [of ?b] op by simp
  have "case format_one sz out fstr x of
          Inl err \<Rightarrow> r0 = Inl err
        | Inr t \<Rightarrow> r0 = Inr () \<and> format (s0\<lparr>result := extends ?b fs\<rparr>) = fstr
             \<and> fst (str (s0\<lparr>result := extends ?b fs\<rparr>)) = Inr (acc @ sep @ t)"
  proof (cases r0)
    case (Inl err)
    with op show ?thesis by (simp add: format_one_def)
  next
    case (Inr u)
    from operator_percent_cursor [of sz out ?init x u s0] op Inr
    obtain e' where e': "format s0 = fstr" "fend s0 = Some e'" "e' \<le> length fstr"
      by (auto simp: fstring_state_def)
    then have "fst (str s0) = Inr (buffer_str (result s0) @ drop e' fstr)"
      by (simp add: str_eq)
    with op Inr have f1: "format_one sz out fstr x = Inr (concat fs @ drop e' fstr)"
      by (simp add: format_one_def res0 outputbuffer_def buffer_str_def extends_def)
    have "fst (str (s0\<lparr>result := extends ?b fs\<rparr>)) =
            Inr (buffer_str (extends ?b fs) @ drop e' fstr)"
      using e' by (simp add: str_eq)
    with f1 e' e(3) Inr show ?thesis by simp
  qed
  with r op2 show ?thesis by blast
qed

lemma to_string_loop_joins:
  "format s = fstr \<Longrightarrow> fst (str s) = Inr acc \<Longrightarrow>
     (case to_string_loop sz out s xs sep of
        (Inl err, s') \<Rightarrow> Inl err
      | (Inr u, s') \<Rightarrow> fst (str s'))
     = (case collect (map (format_one sz out fstr) xs) of
          Inl err \<Rightarrow> Inl err
        | Inr ts \<Rightarrow> Inr (acc @ concat (map ((@) sep) ts)))"
proof (induction xs arbitrary: s acc)
  case Nil
  then show ?case by simp
next
  case (Cons x xs)
  from rebind [OF Cons.prems, of sz out sep x]
  obtain s1 r s2 where st: "reset s = (Inr (), s1)"
      "operator_percent_assign sz out (fstring_append sep s1) x = (r, s2)"
      "case format_one sz out fstr x of
         Inl err \<Rightarrow> r = Inl err
       | Inr t \<Rightarrow> r = Inr () \<and> format s2 = fstr \<and> fst (str s2) = Inr (acc @ sep @ t)"
    by blast
  show ?case
  proof (cases "format_one sz out fstr x")
    case (Inl err)
    with st show ?thesis by simp
  next
    case (Inr t)
    with st have r: "r = Inr ()" "format s2 = fstr" "fst (str s2) = Inr (acc @ sep @ t)"
      by simp_all
    from Cons.IH [OF r(2,3)] st(1,2) r(1) Inr show ?thesis
      by (simp split: sum.splits)
  qed
qed

lemma join_Cons: "join sep (t # ts) = t @ concat (map ((@) sep) ts)"
  by (induction ts arbitrary: t) simp_all

section \<open>The claims\<close>

subsection \<open>C1: a conversion character outside the whitelist\<close>

text \<open>
  C1 says that a bind whose whitelist does not contain the conversion character of the
  next directive fails with FormatMismatch, whatever the value. The code does not do so.
  Binding an \<^verbatim>\<open>int\<close> to the format string \<^verbatim>\<open>%s\<close> throws "Invalid format", for every
  value, renderer and size of \<^verbatim>\<open>std::string\<close>; and in \<^verbatim>\<open>%s and %d\<close> the scanner, asked
  for \<^verbatim>\<open>d\<close> or \<^verbatim>\<open>i\<close>, stops at the \<^verbatim>\<open>d\<close> of \<^verbatim>\<open>and\<close> and returns the directive
  \<^verbatim>\<open>%s and\<close> without any exception.
\<close>

theorem operator_percent_int_on_s_directive:
  "fst (operator_percent sz out (fstring_state ''%s'') (IntArg v)) = Inl InvalidFormat
   \<and> fst (next_fmt ''di'' (fstring_state ''%s and %d'')) = Inr ''%s and''"
proof -
  have "next_fmt ''di'' (fstring_state ''%s'') =
          (Inl InvalidFormat,
           \<lparr>fstart = Some 0, fend = None, format = ''%s'',
            result = \<lparr>fragments = [[]], length' = 0\<rparr>\<rparr>)"
    by code_simp
  then have "fst (operator_percent sz out (fstring_state ''%s'') (IntArg v)) = Inl InvalidFormat"
    by (simp add: printfmt_def)
  moreover have "fst (next_fmt ''di'' (fstring_state ''%s and %d'')) = Inr ''%s and''"
    by code_simp
  ultimately show ?thesis ..
qed

subsection \<open>C2: the escape \<^verbatim>\<open>%%\<close>\<close>

text \<open>
  C2 says that the end of a directive is the first character after the \<^verbatim>\<open>%\<close> that is
  allowed or is \<^verbatim>\<open>%\<close> itself, so that \<^verbatim>\<open>%%\<close> becomes one \<^verbatim>\<open>%\<close> in the buffer and
  is no directive. The code searches for the allowed characters only. With the characters
  \<^verbatim>\<open>d\<close> and \<^verbatim>\<open>i\<close> of the \<^verbatim>\<open>int\<close> overload, \<^verbatim>\<open>next_fmt\<close> on
  \<^verbatim>\<open>50%% done, %d left\<close> appends \<^verbatim>\<open>50\<close> alone and returns as the directive
  the two \<^verbatim>\<open>%\<close>, the space and the \<^verbatim>\<open>d\<close> of \<^verbatim>\<open>done\<close>; the directive
  \<^verbatim>\<open>%d\<close> is never reached.
\<close>

theorem next_fmt_keeps_double_percent:
  "next_fmt ''di'' (fstring_state ''50%% done, %d left'') =
     (Inr ''%% d'',
      \<lparr>fstart = Some 2, fend = Some 6, format = ''50%% done, %d left'',
       result = \<lparr>fragments = [''50''], length' = 2\<rparr>\<rparr>)"
  by code_simp

subsection \<open>C3: texts longer than the first buffer\<close>

text \<open>
  C3 says that a text of 16 characters or more is rendered a second time into a buffer of
  the right size and appended whole. The code compares the length with \<^verbatim>\<open>sizeof(bfr)\<close>
  and not with the 16 characters of the buffer. Where a \<^verbatim>\<open>std::string\<close> object has 32
  bytes, a text of 20 characters is appended as its first 15 characters followed by five
  \<^verbatim>\<open>'\0'\<close>, for any format string and argument.
\<close>

theorem append_fmt_truncates_below_sizeof:
  "append_fmt 32 (\<lambda>fstr a. Text ''abcdefghijklmnopqrst'') fstr a outputbuffer =
     (Inr (), \<lparr>fragments = [''abcdefghijklmno'' @ replicate 5 NUL], length' = 20\<rparr>)"
  by (simp add: append_fmt_Text [of _ _ _ "''abcdefghijklmnopqrst''"] stored_def extends_def
        outputbuffer_def numeral_eq_Suc)

subsection \<open>C4: \<^verbatim>\<open>str\<close> with directives left\<close>

text \<open>
  C4. \<^verbatim>\<open>str\<close> does not fail on a state whose end cursor lies inside the format string,
  whatever is left of the format string: it returns the concatenated fragments followed by
  the format string from the end cursor on, unchanged. The end cursor lies inside the
  format string in a new state, where \<^verbatim>\<open>str\<close> returns the format string itself
  (\<open>str_fstring_state\<close>), and after every operation that returned
  (\<open>next_fmt_fend\<close>, \<open>operator_percent_cursor\<close>, \<open>reset_fend\<close>).
\<close>

theorem str_passes_tail_through:
  assumes "fend s = Some e" and "e \<le> length (format s)"
  shows "fst (str s) = Inr (buffer_str (result s) @ drop e (format s))"
  using assms by (simp add: str_eq)

theorem str_passes_tail_through_witness:
  "operator_percent 32 (\<lambda>fstr a. Text ''1'') (fstring_state ''%d and %d'') (IntArg 1) =
     (Inr (), \<lparr>fstart = Some 0, fend = Some 2, format = ''%d and %d'',
               result = \<lparr>fragments = [[], ''1''], length' = 1\<rparr>\<rparr>)
   \<and> fend \<lparr>fstart = Some 0, fend = Some 2, format = ''%d and %d'',
            result = \<lparr>fragments = [[], ''1''], length' = 1\<rparr>\<rparr> = Some 2
   \<and> 2 \<le> length (format \<lparr>fstart = Some 0, fend = Some 2, format = ''%d and %d'',
            result = \<lparr>fragments = [[], ''1''], length' = 1\<rparr>\<rparr>)
   \<and> fst (str \<lparr>fstart = Some 0, fend = Some 2, format = ''%d and %d'',
            result = \<lparr>fragments = [[], ''1''], length' = 1\<rparr>\<rparr>) = Inr ''1 and %d''"
proof -
  let ?s = "\<lparr>fstart = Some 0, fend = Some 2, format = ''%d and %d'',
             result = \<lparr>fragments = [[], ''1''], length' = 1\<rparr>\<rparr>"
  have h0: "operator_percent 32 (\<lambda>fstr a. Text ''1'') (fstring_state ''%d and %d'') (IntArg 1) =
              (Inr (), ?s)"
    by code_simp
  have h1: "fend ?s = Some 2"
    by simp
  have h2: "2 \<le> length (format ?s)"
    by simp
  from str_passes_tail_through [OF h1 h2] have "fst (str ?s) = Inr ''1 and %d''"
    by (simp add: buffer_str_def)
  with h0 h1 h2 show ?thesis
    by blast
qed

subsection \<open>C5: the "Format mismatch" branch\<close>

text \<open>
  C5. In \<^verbatim>\<open>next_fmt\<close> the branch that throws "Format mismatch" cannot be reached, for any
  format string, any set of allowed characters and any state of the scanner: the
  character at \<^verbatim>\<open>fend - 1\<close> was found by \<^verbatim>\<open>find_first_of\<close> over the very set that
  is then asked again, so it is in that set. \<^verbatim>\<open>next_fmt\<close> never fails with
  FormatMismatch.
\<close>

theorem next_fmt_never_FormatMismatch:
  "fst (next_fmt chars s) \<noteq> Inl FormatMismatch"
proof (induction chars s rule: next_fmt.induct)
  case (1 chars s)
  obtain x s' where st: "next_fmt_step chars s = (x, s')"
    by (cases "next_fmt_step chars s")
  show ?case
  proof (cases x)
    case (Inl err)
    with st next_fmt_step_not_FormatMismatch [of chars s] show ?thesis
      by (simp add: next_fmt.simps [of chars s])
  next
    case (Inr sc)
    show ?thesis
    proof (cases sc)
      case Escaped
      with st Inr 1 show ?thesis
        by (simp add: next_fmt.simps [of chars s])
    next
      case (Resolved d)
      with st Inr show ?thesis
        by (simp add: next_fmt.simps [of chars s])
    qed
  qed
qed

subsection \<open>C6: an encoding error of the renderer\<close>

text \<open>
  C6 says that \<^verbatim>\<open>append_fmt\<close> fails with FormatRenderError ("Format error") when the
  renderer returns a negative number, and appends nothing. The code appends nothing, but
  the exception is another one: \<^verbatim>\<open>bfr.resize\<close> is called with the negative number
  before the test \<^verbatim>\<open>r < 0\<close> is reached and throws \<^verbatim>\<open>std::length_error\<close>. This holds for
  every negative number the renderer returns and every size of \<^verbatim>\<open>std::string\<close>.
\<close>

theorem append_fmt_encoding_error_is_length_error:
  "append_fmt sz (\<lambda>fstr a. EncodingError k) fstr a b = (Inl LengthError, b)"
  by (rule append_fmt_EncodingError) simp

subsection \<open>C7: no directive left\<close>

text \<open>
  C7. For every state and every argument of a built-in overload, \<^verbatim>\<open>operator%\<close> fails with
  "Format not found" (DirectiveNotFound) exactly when \<^verbatim>\<open>format.find('%', fend)\<close> finds
  nothing or finds the last character of the format string; and when it fails so, the
  output buffer is as it was before the call.
\<close>

theorem bind_FormatNotFound_iff:
  "(fst (operator_percent sz out s a) = Inl FormatNotFound \<longleftrightarrow>
      find_percent s = None \<or> (\<exists>i. find_percent s = Some i \<and> i + 1 = length (format s)))
   \<and> (fst (operator_percent sz out s a) = Inl FormatNotFound \<longrightarrow>
        result (snd (operator_percent sz out s a)) = result s)"
proof -
  obtain a' where op: "operator_percent sz out s a = printfmt sz out (fmtChars a) a' s"
    using operator_percent_printfmt by blast
  have one: "next_fmt (fmtChars a) s =
           (case next_fmt_step (fmtChars a) s of
              (Inl err, s') \<Rightarrow> (Inl err, s')
            | (Inr Escaped, s') \<Rightarrow> (Inl FormatMismatch, s')
            | (Inr (Resolved d), s') \<Rightarrow> (Inr d, s'))"
    by (rule next_fmt_one_turn [OF fmtChars_no_percent])
  have nf: "fst (next_fmt (fmtChars a) s) = Inl FormatNotFound \<longleftrightarrow>
              fst (next_fmt_step (fmtChars a) s) = Inl FormatNotFound"
    unfolding one by (auto split: prod.splits sum.splits scan.splits)
  have st: "fst (next_fmt (fmtChars a) s) = Inl FormatNotFound \<Longrightarrow>
              snd (next_fmt (fmtChars a) s) = snd (next_fmt_step (fmtChars a) s)"
    unfolding one by (auto split: prod.splits sum.splits scan.splits)
  show ?thesis
    using printfmt_FormatNotFound [of sz out "fmtChars a" a' s]
      printfmt_FormatNotFound_state [of sz out "fmtChars a" a' s]
      next_fmt_step_FormatNotFound [of "fmtChars a" s]
      next_fmt_step_FormatNotFound_result [of "fmtChars a" s] nf st
    unfolding op by auto
qed

theorem bind_FormatNotFound_iff_witness:
  "find_percent \<lparr>fstart = Some 0, fend = Some 2, format = ''%d%'',
                 result = \<lparr>fragments = [[], ''7''], length' = 1\<rparr>\<rparr> = Some 2
   \<and> 2 + 1 = length (format \<lparr>fstart = Some 0, fend = Some 2, format = ''%d%'',
                 result = \<lparr>fragments = [[], ''7''], length' = 1\<rparr>\<rparr>)
   \<and> fst (operator_percent 32 (\<lambda>fstr a. Text ''7'')
             \<lparr>fstart = Some 0, fend = Some 2, format = ''%d%'',
              result = \<lparr>fragments = [[], ''7''], length' = 1\<rparr>\<rparr> (IntArg 7)) = Inl FormatNotFound
   \<and> result (snd (operator_percent 32 (\<lambda>fstr a. Text ''7'')
             \<lparr>fstart = Some 0, fend = Some 2, format = ''%d%'',
              result = \<lparr>fragments = [[], ''7''], length' = 1\<rparr>\<rparr> (IntArg 7)))
       = \<lparr>fragments = [[], ''7''], length' = 1\<rparr>"
proof -
  let ?s = "\<lparr>fstart = Some 0, fend = Some 2, format = ''%d%'',
             result = \<lparr>fragments = [[], ''7''], length' = 1\<rparr>\<rparr>"
  have h1: "find_percent ?s = Some 2"
    by code_simp
  have h2: "2 + 1 = length (format ?s)"
    by simp
  from bind_FormatNotFound_iff [of 32 "\<lambda>fstr a. Text ''7''" ?s "IntArg 7"] h1 h2
  show ?thesis by simp
qed

subsection \<open>C8: \<^verbatim>\<open>reset\<close>\<close>

text \<open>
  C8. On every state whose end cursor lies inside the format string, \<^verbatim>\<open>reset\<close> appends
  the rest of the format string, from the end cursor to its end, as one more fragment,
  leaves the fragments collected before as they are, and sets \<^verbatim>\<open>fstart\<close> and
  \<^verbatim>\<open>fend\<close> to 0; the format string stays the same.
\<close>

theorem reset_appends_tail_and_rewinds:
  assumes "fend s = Some e" and "e \<le> length (format s)"
  shows "\<exists>s'. reset s = (Inr (), s')
           \<and> fragments (result s') = fragments (result s) @ [drop e (format s)]
           \<and> length' (result s') = length' (result s) + (length (format s) - e)
           \<and> fstart s' = Some 0 \<and> fend s' = Some 0 \<and> format s' = format s"
  using assms by (simp add: reset_eq append_text_def)

theorem reset_appends_tail_and_rewinds_witness:
  "fend \<lparr>fstart = Some 1, fend = Some 3, format = ''<%d>'',
         result = \<lparr>fragments = [''<'', ''7''], length' = 2\<rparr>\<rparr> = Some 3
   \<and> 3 \<le> length (format \<lparr>fstart = Some 1, fend = Some 3, format = ''<%d>'',
         result = \<lparr>fragments = [''<'', ''7''], length' = 2\<rparr>\<rparr>)
   \<and> reset \<lparr>fstart = Some 1, fend = Some 3, format = ''<%d>'',
         result = \<lparr>fragments = [''<'', ''7''], length' = 2\<rparr>\<rparr> =
       (Inr (), \<lparr>fstart = Some 0, fend = Some 0, format = ''<%d>'',
         result = \<lparr>fragments = [''<'', ''7'', ''>''], length' = 3\<rparr>\<rparr>)"
proof -
  let ?s = "\<lparr>fstart = Some 1, fend = Some 3, format = ''<%d>'',
         result = \<lparr>fragments = [''<'', ''7''], length' = 2\<rparr>\<rparr>"
  have h1: "fend ?s = Some 3" by simp
  have h2: "3 \<le> length (format ?s)" by simp
  from reset_appends_tail_and_rewinds [OF h1 h2]
  obtain s' where s': "reset ?s = (Inr (), s')"
      "fragments (result s') = fragments (result ?s) @ [drop 3 (format ?s)]"
      "length' (result s') = length' (result ?s) + (length (format ?s) - 3)"
      "fstart s' = Some 0" "fend s' = Some 0" "format s' = format ?s"
    by blast
  then have "s' = \<lparr>fstart = Some 0, fend = Some 0, format = ''<%d>'',
         result = \<lparr>fragments = [''<'', ''7'', ''>''], length' = 3\<rparr>\<rparr>"
    by (cases s', cases "result s'") simp
  with s'(1) h1 h2 show ?thesis by simp
qed

subsection \<open>C9: \<^verbatim>\<open>to_string\<close>\<close>

text \<open>
  C9. For every format string, separator and non-empty list of values, \<^verbatim>\<open>to_string\<close>
  returns what formatting each value on its own with the same format string and joining
  the texts with the separator returns; when one of the values cannot be formatted on its
  own, both throw the exception of the first such value. In particular this holds for a
  format string with one directive and values of the matching type.
\<close>

theorem to_string_joins:
  assumes "xs \<noteq> []"
  shows "to_string sz out fstr xs sep = formatted_independently sz out fstr xs sep"
proof -
  from assms obtain x rest where xs: "xs = x # rest"
    by (cases xs) auto
  obtain r s1 where op: "operator_percent sz out (fstring_state fstr) x = (r, s1)"
    by (cases "operator_percent sz out (fstring_state fstr) x")
  show ?thesis
  proof (cases r)
    case (Inl err)
    with op xs show ?thesis
      by (simp add: to_string_def formatted_independently_def format_one_def
            operator_percent_assign_def)
  next
    case (Inr u)
    from operator_percent_cursor [of sz out "fstring_state fstr" x u s1] op Inr
    obtain e where e: "format s1 = fstr" "fend s1 = Some e" "e \<le> length fstr"
      by (auto simp: fstring_state_def)
    then have s: "fst (str s1) = Inr (buffer_str (result s1) @ drop e fstr)"
      by (simp add: str_eq)
    with op Inr have f: "format_one sz out fstr x = Inr (buffer_str (result s1) @ drop e fstr)"
      by (simp add: format_one_def)
    from to_string_loop_joins [OF e(1) s, of sz out rest sep] op Inr xs f show ?thesis
      by (simp add: to_string_def formatted_independently_def operator_percent_assign_def
            join_Cons split: sum.splits prod.splits)
  qed
qed

theorem to_string_joins_witness:
  "[IntArg 1, IntArg 2, IntArg 1] \<noteq> []
   \<and> to_string 32
        (\<lambda>fstr a. case a of IntArg w \<Rightarrow> Text (if w = 1 then ''one'' else ''two'')
                   | _ \<Rightarrow> EncodingError 0)
        ''<%d>'' [IntArg 1, IntArg 2, IntArg 1] '', ''
     = formatted_independently 32
        (\<lambda>fstr a. case a of IntArg w \<Rightarrow> Text (if w = 1 then ''one'' else ''two'')
                   | _ \<Rightarrow> EncodingError 0)
        ''<%d>'' [IntArg 1, IntArg 2, IntArg 1] '', ''
   \<and> formatted_independently 32
        (\<lambda>fstr a. case a of IntArg w \<Rightarrow> Text (if w = 1 then ''one'' else ''two'')
                   | _ \<Rightarrow> EncodingError 0)
        ''<%d>'' [IntArg 1, IntArg 2, IntArg 1] '', '' = Inr ''<one>, <two>, <one>''"
proof -
  have ne: "[IntArg 1, IntArg 2, IntArg 1] \<noteq> []"
    by simp
  have ev: "formatted_independently 32
        (\<lambda>fstr a. case a of IntArg w \<Rightarrow> Text (if w = 1 then ''one'' else ''two'')
                   | _ \<Rightarrow> EncodingError 0)
        ''<%d>'' [IntArg 1, IntArg 2, IntArg 1] '', '' = Inr ''<one>, <two>, <one>''"
    by code_simp
  from to_string_joins [OF ne] ne ev show ?thesis
    by blast
qed

subsection \<open>C10: the end cursor moves forward\<close>

text \<open>
  C10. Every turn of the loop of \<^verbatim>\<open>next_fmt\<close> that does not throw, whether it consumed a
  \<^verbatim>\<open>%%\<close> or resolved a directive, leaves \<^verbatim>\<open>fend\<close> strictly larger than it found it,
  and so does every call of \<^verbatim>\<open>next_fmt\<close> that returns: between two resets the end
  cursor never decreases.
\<close>

theorem fend_strictly_increases:
  "(\<forall>sc s'. next_fmt_step chars s = (Inr sc, s') \<longrightarrow>
       (\<exists>e e'. fend s = Some e \<and> fend s' = Some e' \<and> e < e'))
   \<and> (\<forall>d s'. next_fmt chars s = (Inr d, s') \<longrightarrow>
       (\<exists>e e'. fend s = Some e \<and> fend s' = Some e' \<and> e < e'))"
  using next_fmt_step_fend [of chars s] next_fmt_fend [of chars s] by blast

theorem fend_strictly_increases_witness:
  "next_fmt_step ''d%'' (fstring_state ''%%%d'') =
     (Inr Escaped, \<lparr>fstart = Some 0, fend = Some 2, format = ''%%%d'',
                    result = \<lparr>fragments = [[], ''%''], length' = 1\<rparr>\<rparr>)
   \<and> next_fmt ''d%'' (fstring_state ''%%%d'') =
     (Inr ''%d'', \<lparr>fstart = Some 2, fend = Some 4, format = ''%%%d'',
                   result = \<lparr>fragments = [[], ''%'', []], length' = 1\<rparr>\<rparr>)
   \<and> (\<exists>e e'. fend (fstring_state ''%%%d'') = Some e
         \<and> fend \<lparr>fstart = Some 0, fend = Some 2, format = ''%%%d'',
                  result = \<lparr>fragments = [[], ''%''], length' = 1\<rparr>\<rparr> = Some e' \<and> e < e')
   \<and> (\<exists>e e'. fend (fstring_state ''%%%d'') = Some e
         \<and> fend \<lparr>fstart = Some 2, fend = Some 4, format = ''%%%d'',
                  result = \<lparr>fragments = [[], ''%'', []], length' = 1\<rparr>\<rparr> = Some e' \<and> e < e')"
proof -
  have h1: "next_fmt_step ''d%'' (fstring_state ''%%%d'') =
     (Inr Escaped, \<lparr>fstart = Some 0, fend = Some 2, format = ''%%%d'',
                    result = \<lparr>fragments = [[], ''%''], length' = 1\<rparr>\<rparr>)"
    by code_simp
  have h2: "next_fmt ''d%'' (fstring_state ''%%%d'') =
     (Inr ''%d'', \<lparr>fstart = Some 2, fend = Some 4, format = ''%%%d'',
                   result = \<lparr>fragments = [[], ''%'', []], length' = 1\<rparr>\<rparr>)"
    by code_simp
  from fend_strictly_increases [of "''d%''" "fstring_state ''%%%d''"] h1 h2 show ?thesis
    by blast
qed

end
